theory Spec2Isabelle
  imports Main "HOL-Library.Char_ord" "HOL-Library.List_Lexorder" "HOL-Library.Multiset"
begin

section \<open>Text: characters and the string methods the auditor uses\<close>

text \<open>
  A line of text is a \<^typ>\<open>string\<close>; a \<^typ>\<open>char\<close> stands for the code point of the
  same number (below 256). The character classes are Python's on that range:
  \<^verbatim>\<open>str.isspace\<close> and the pattern class \<^verbatim>\<open>\s\<close> agree, \<^verbatim>\<open>\d\<close> is the ten decimal digits,
  and \<^verbatim>\<open>\w\<close> (which decides \<^verbatim>\<open>\b\<close>) is alphanumeric or underscore.
\<close>

definition code :: "char \<Rightarrow> nat" where
  "code c = of_char c"

definition is_space :: "char \<Rightarrow> bool" where
  "is_space c = (code c \<in> {9, 10, 11, 12, 13, 28, 29, 30, 31, 32, 133, 160})"

definition is_digit :: "char \<Rightarrow> bool" where
  "is_digit c = (48 \<le> code c \<and> code c \<le> 57)"

definition is_word :: "char \<Rightarrow> bool" where
  "is_word c = (let n = code c in
     (48 \<le> n \<and> n \<le> 57) \<or> (65 \<le> n \<and> n \<le> 90) \<or> n = 95 \<or> (97 \<le> n \<and> n \<le> 122) \<or>
     n \<in> {170, 178, 179, 181, 185, 186, 188, 189, 190} \<or>
     (192 \<le> n \<and> n \<le> 214) \<or> (216 \<le> n \<and> n \<le> 246) \<or> 248 \<le> n)"

text \<open>Case folding as \<^verbatim>\<open>re.IGNORECASE\<close> needs it against the ASCII letters of a pattern.\<close>

definition lower :: "char \<Rightarrow> char" where
  "lower c = (if 65 \<le> code c \<and> code c \<le> 90 then char_of (code c + 32) else c)"

abbreviation dquote :: char where "dquote \<equiv> CHR 0x22"
abbreviation squote :: char where "squote \<equiv> CHR 0x27"
abbreviation btick :: char where "btick \<equiv> CHR 0x60"
abbreviation newline :: char where "newline \<equiv> CHR 0x0A"

text \<open>\<^verbatim>\<open>s.strip()\<close>, \<^verbatim>\<open>s.split()\<close>, \<^verbatim>\<open>s.split("\n")\<close>, \<^verbatim>\<open>s.startswith(p)\<close>.\<close>

definition strip :: "string \<Rightarrow> string" where
  "strip s = rev (dropWhile is_space (rev (dropWhile is_space s)))"

fun split_ws :: "string \<Rightarrow> string \<Rightarrow> string list" where
  "split_ws acc [] = (if acc = [] then [] else [acc])"
| "split_ws acc (c # cs) =
     (if is_space c then (if acc = [] then split_ws [] cs else acc # split_ws [] cs)
      else split_ws (acc @ [c]) cs)"

definition split :: "string \<Rightarrow> string list" where
  "split s = split_ws [] s"

fun split_on :: "char \<Rightarrow> string \<Rightarrow> string \<Rightarrow> string list" where
  "split_on d acc [] = [acc]"
| "split_on d acc (c # cs) =
     (if c = d then acc # split_on d [] cs else split_on d (acc @ [c]) cs)"

definition split_lines :: "string \<Rightarrow> string list" where
  "split_lines s = split_on newline [] s"

fun startswith :: "string \<Rightarrow> string \<Rightarrow> bool" where
  "startswith s [] = True"
| "startswith [] (p # ps) = False"
| "startswith (c # cs) (p # ps) = (c = p \<and> startswith cs ps)"

text \<open>
  \<^verbatim>\<open>xs.index(x)\<close> is the position of the first element equal to \<open>x\<close>. Python raises
  ValueError when there is none; both call sites pass the variable of a loop over \<open>xs\<close>
  itself, an element of \<open>xs\<close>, and for those the function below is Python's.
\<close>

definition first_index :: "'a list \<Rightarrow> 'a \<Rightarrow> nat" where
  "first_index xs x = length (takeWhile (\<lambda>y. y \<noteq> x) xs)"

text \<open>
  \<^verbatim>\<open>s.isdigit()\<close> and \<^verbatim>\<open>int(s)\<close> on text without sign or underscore (the auditor
  converts digit runs only). \<^verbatim>\<open>isdigit\<close> also accepts the superscript digits (178, 179,
  185), which \<^verbatim>\<open>int\<close> rejects with ValueError (\<open>None\<close>). The interpreter's configurable
  limit on the number of digits \<^verbatim>\<open>int\<close> converts is outside the model.
\<close>

definition isdigit :: "string \<Rightarrow> bool" where
  "isdigit s = (s \<noteq> [] \<and> list_all (\<lambda>c. is_digit c \<or> code c \<in> {178, 179, 185}) s)"

definition py_int :: "string \<Rightarrow> nat option" where
  "py_int s = (let t = strip s in
     if t \<noteq> [] \<and> list_all is_digit t
     then Some (foldl (\<lambda>n c. 10 * n + (code c - 48)) 0 t) else None)"

section \<open>Regular expressions: the backtracking matcher of the patterns in use\<close>

text \<open>
  The patterns of the auditor use literals, character classes, \<^verbatim>\<open>\b\<close>, alternation, one
  capturing group, and the quantifiers \<^verbatim>\<open>*\<close>, \<^verbatim>\<open>+\<close>, \<^verbatim>\<open>?\<close>, \<^verbatim>\<open>*?\<close> applied to a single
  character class. A match state is the character before the position (for \<^verbatim>\<open>\b\<close>), the
  text still to read, and the text of group 1. The matcher returns the states after every
  way to match, in the order in which a backtracking matcher tries them: the first one is
  the match that \<^verbatim>\<open>re\<close> reports. The flag \<open>ic\<close> is \<^verbatim>\<open>re.IGNORECASE\<close>; it changes how a
  literal character matches (the bracketed sets of the patterns hold no letters).
\<close>

datatype cclass =
    Ch char
  | OneOf "char list"
  | NoneOf "char list"
  | Digit
  | Space
  | AnyCh

datatype regex =
    Eps
  | Lit string
  | Cls cclass
  | Star cclass
  | Plus cclass
  | Opt cclass
  | LazyStar cclass
  | WordB
  | Seq regex regex
  | Alt regex regex
  | Grp regex

type_synonym mstate = "char option \<times> string \<times> string option"

fun cmatch :: "bool \<Rightarrow> cclass \<Rightarrow> char \<Rightarrow> bool" where
  "cmatch ic (Ch a) x = (if ic then lower x = lower a else x = a)"
| "cmatch ic (OneOf as) x = (x \<in> set as)"
| "cmatch ic (NoneOf as) x = (x \<notin> set as)"
| "cmatch ic Digit x = is_digit x"
| "cmatch ic Space x = is_space x"
| "cmatch ic AnyCh x = (x \<noteq> newline)"

fun lit_match :: "bool \<Rightarrow> string \<Rightarrow> char option \<Rightarrow> string \<Rightarrow> (char option \<times> string) option" where
  "lit_match ic [] p s = Some (p, s)"
| "lit_match ic (a # as) p [] = None"
| "lit_match ic (a # as) p (x # xs) =
     (if cmatch ic (Ch a) x then lit_match ic as (Some x) xs else None)"

fun greedy :: "bool \<Rightarrow> cclass \<Rightarrow> char option \<Rightarrow> string \<Rightarrow> (char option \<times> string) list" where
  "greedy ic c p [] = [(p, [])]"
| "greedy ic c p (x # xs) =
     (if cmatch ic c x then greedy ic c (Some x) xs @ [(p, x # xs)] else [(p, x # xs)])"

fun lazy :: "bool \<Rightarrow> cclass \<Rightarrow> char option \<Rightarrow> string \<Rightarrow> (char option \<times> string) list" where
  "lazy ic c p [] = [(p, [])]"
| "lazy ic c p (x # xs) =
     (if cmatch ic c x then (p, x # xs) # lazy ic c (Some x) xs else [(p, x # xs)])"

definition is_word_opt :: "char option \<Rightarrow> bool" where
  "is_word_opt p = (case p of None \<Rightarrow> False | Some c \<Rightarrow> is_word c)"

definition next_char :: "string \<Rightarrow> char option" where
  "next_char s = (case s of [] \<Rightarrow> None | x # _ \<Rightarrow> Some x)"

fun rm :: "bool \<Rightarrow> regex \<Rightarrow> mstate \<Rightarrow> mstate list" where
  "rm ic Eps st = [st]"
| "rm ic (Lit l) (p, s, g) =
     (case lit_match ic l p s of None \<Rightarrow> [] | Some (p', s') \<Rightarrow> [(p', s', g)])"
| "rm ic (Cls c) (p, s, g) =
     (case s of [] \<Rightarrow> [] | x # xs \<Rightarrow> if cmatch ic c x then [(Some x, xs, g)] else [])"
| "rm ic (Star c) (p, s, g) = map (\<lambda>(p', s'). (p', s', g)) (greedy ic c p s)"
| "rm ic (Plus c) (p, s, g) =
     (case s of [] \<Rightarrow> []
      | x # xs \<Rightarrow> if cmatch ic c x then map (\<lambda>(p', s'). (p', s', g)) (greedy ic c (Some x) xs)
                 else [])"
| "rm ic (Opt c) (p, s, g) =
     (case s of [] \<Rightarrow> [(p, s, g)]
      | x # xs \<Rightarrow> if cmatch ic c x then [(Some x, xs, g), (p, s, g)] else [(p, s, g)])"
| "rm ic (LazyStar c) (p, s, g) = map (\<lambda>(p', s'). (p', s', g)) (lazy ic c p s)"
| "rm ic WordB (p, s, g) =
     (if is_word_opt p \<noteq> is_word_opt (next_char s) then [(p, s, g)] else [])"
| "rm ic (Seq a b) st = concat (map (rm ic b) (rm ic a st))"
| "rm ic (Alt a b) st = rm ic a st @ rm ic b st"
| "rm ic (Grp r) (p, s, g) =
     map (\<lambda>(p', s', g'). (p', s', Some (take (length s - length s') s))) (rm ic r (p, s, g))"

definition cat :: "regex list \<Rightarrow> regex" where
  "cat rs = foldr Seq rs Eps"

text \<open>
  \<^verbatim>\<open>re.search(pattern, s)\<close> as a truth value: is there a match at some position of \<open>s\<close>,
  tried from the left.
\<close>

fun search_from :: "bool \<Rightarrow> regex \<Rightarrow> char option \<Rightarrow> string \<Rightarrow> bool" where
  "search_from ic r p [] = (rm ic r (p, [], None) \<noteq> [])"
| "search_from ic r p (x # xs) =
     (rm ic r (p, x # xs, None) \<noteq> [] \<or> search_from ic r (Some x) xs)"

definition re_search :: "bool \<Rightarrow> regex \<Rightarrow> string \<Rightarrow> bool" where
  "re_search ic r s = search_from ic r None s"

text \<open>
  \<^verbatim>\<open>re.findall(pattern, s)\<close>: the non-overlapping matches from left to right, each with
  the offset at which it starts. A match contributes the text of group 1 when the pattern
  has a group and the whole matched text otherwise. After an empty match the scan moves one
  character on.
\<close>

fun has_group :: "regex \<Rightarrow> bool" where
  "has_group (Grp r) = True"
| "has_group (Seq a b) = (has_group a \<or> has_group b)"
| "has_group (Alt a b) = (has_group a \<or> has_group b)"
| "has_group r = False"

definition match_text :: "regex \<Rightarrow> string \<Rightarrow> string \<Rightarrow> string option \<Rightarrow> string" where
  "match_text r s s' g =
     (if has_group r then (case g of None \<Rightarrow> [] | Some t \<Rightarrow> t)
      else take (length s - length s') s)"

function finditer :: "regex \<Rightarrow> nat \<Rightarrow> char option \<Rightarrow> string \<Rightarrow> (nat \<times> string) list" where
  "finditer r i p s =
     (case rm False r (p, s, None) of
        [] \<Rightarrow> (case s of [] \<Rightarrow> [] | x # xs \<Rightarrow> finditer r (Suc i) (Some x) xs)
      | (p', s', g) # _ \<Rightarrow>
          (i, match_text r s s' g) #
          (if length s' < length s
           then finditer r (i + (length s - length s')) p' s'
           else (case s of [] \<Rightarrow> [] | x # xs \<Rightarrow> finditer r (Suc i) (Some x) xs)))"
  by pat_completeness auto
termination
  by (relation "measure (\<lambda>(r, i, p, s). length s)") auto

definition re_findall :: "regex \<Rightarrow> string \<Rightarrow> string list" where
  "re_findall r s = map snd (finditer r 0 None s)"

declare finditer.simps [simp del]

section \<open>Data model\<close>

datatype Severity = WARNING | CRITICAL

datatype Category =
    BREAKPOINT_COMPLIANCE
  | HARDCODED_SIZE
  | LAYOUT_ANTIPATTERN
  | RESPONSIVE_COVERAGE
  | FLEX_GRID_PATTERN
  | INLINE_STYLE

record Violation =
  file_path :: string
  line_number :: nat
  category :: Category
  severity :: Severity
  rule :: string
  snippet :: string
  message :: string

record AuditResult =
  violations :: "Violation list"
  files_scanned :: nat

definition new_result :: AuditResult where
  "new_result = \<lparr>violations = [], files_scanned = 0\<rparr>"

definition add_violation :: "AuditResult \<Rightarrow> Violation \<Rightarrow> AuditResult" where
  "add_violation result v = result\<lparr>violations := violations result @ [v]\<rparr>"

definition total_violations :: "AuditResult \<Rightarrow> nat" where
  "total_violations result = length (violations result)"

definition critical_count :: "AuditResult \<Rightarrow> nat" where
  "critical_count result = length (filter (\<lambda>v. severity v = CRITICAL) (violations result))"

definition warning_count :: "AuditResult \<Rightarrow> nat" where
  "warning_count result = length (filter (\<lambda>v. severity v = WARNING) (violations result))"

datatype py_error = ValueError

section \<open>Configuration constants\<close>

text \<open>
  \<^verbatim>\<open>ALLOWED_BREAKPOINTS\<close> and \<^verbatim>\<open>SCAN_EXTENSIONS\<close> are Python sets. A loop over a set visits
  its elements in an order that may differ from run to run, so every function that
  iterates one takes the order of the run as a list (\<open>bps\<close>, \<open>exts\<close>).
\<close>

definition ALLOWED_BREAKPOINTS :: "string set" where
  "ALLOWED_BREAKPOINTS = {''sm'', ''md'', ''lg'', ''xl''}"

definition SCAN_EXTENSIONS :: "string set" where
  "SCAN_EXTENSIONS = {''.tsx'', ''.jsx'', ''.ts'', ''.js'', ''.html'', ''.mdx''}"

definition BREAKPOINT_ORDER :: "string list" where
  "BREAKPOINT_ORDER = [''sm'', ''md'', ''lg'', ''xl'']"

definition INVALID_BREAKPOINT_PATTERNS :: "regex list" where
  "INVALID_BREAKPOINT_PATTERNS =
     [cat [WordB, Lit ''2xl:''],
      cat [WordB, Lit ''3xl:''],
      cat [WordB, Lit ''xs:''],
      cat [WordB, Lit ''max-sm:''],
      cat [WordB, Lit ''max-md:''],
      cat [WordB, Lit ''max-lg:''],
      cat [WordB, Lit ''max-xl:''],
      cat [WordB, Lit ''max-2xl:''],
      cat [WordB, Lit ''min-[''],
      cat [WordB, Lit ''max-['']]"

definition px_pattern :: "string \<Rightarrow> regex" where
  "px_pattern u = cat [WordB, Lit (u @ ''-[''), Plus Digit, Lit ''px]'']"

definition HARDCODED_PX_PATTERNS :: "(regex \<times> string) list" where
  "HARDCODED_PX_PATTERNS =
     [(px_pattern ''w'', ''w-[px]''),
      (px_pattern ''h'', ''h-[px]''),
      (px_pattern ''min-w'', ''min-w-[px]''),
      (px_pattern ''max-w'', ''max-w-[px]''),
      (px_pattern ''min-h'', ''min-h-[px]''),
      (px_pattern ''max-h'', ''max-h-[px]''),
      (px_pattern ''gap'', ''gap-[px]''),
      (px_pattern ''p'', ''p-[px]''),
      (px_pattern ''m'', ''m-[px]''),
      (px_pattern ''top'', ''top-[px]''),
      (px_pattern ''right'', ''right-[px]''),
      (px_pattern ''bottom'', ''bottom-[px]''),
      (px_pattern ''left'', ''left-[px]'')]"

definition INLINE_STYLE_PX_PATTERNS :: "regex list" where
  "INLINE_STYLE_PX_PATTERNS =
     [cat [Lit ''style'', Star Space, Lit ''='', Star Space, Cls (OneOf [dquote, squote]),
           Star (NoneOf [dquote, squote]), Lit ''width'', Star Space, Lit '':'', Star Space,
           Plus Digit, Lit ''px''],
      cat [Lit ''style'', Star Space, Lit ''='', Star Space, Cls (OneOf [dquote, squote]),
           Star (NoneOf [dquote, squote]), Lit ''height'', Star Space, Lit '':'', Star Space,
           Plus Digit, Lit ''px''],
      cat [Lit ''style'', Star Space, Lit ''='', Star Space, Lit ''{'', Star Space, Lit ''{'',
           Star (NoneOf ''}''), Lit ''width'', Star Space, Lit '':'', Star Space,
           Opt (OneOf [dquote, squote]), Plus Digit, Lit ''px''],
      cat [Lit ''style'', Star Space, Lit ''='', Star Space, Lit ''{'', Star Space, Lit ''{'',
           Star (NoneOf ''}''), Lit ''height'', Star Space, Lit '':'', Star Space,
           Opt (OneOf [dquote, squote]), Plus Digit, Lit ''px'']]"

definition GRID_COLS_PATTERN :: regex where
  "GRID_COLS_PATTERN =
     cat [WordB, Lit ''grid-cols-'',
          Grp (Alt (Plus Digit) (cat [Lit ''['', LazyStar AnyCh, Lit '']'']))]"

section \<open>Token extractor\<close>

definition class_patterns :: "regex list" where
  "class_patterns =
     [cat [Lit ''className'', Star Space, Lit ''='', Star Space, Cls (Ch dquote),
           Grp (Star (NoneOf [dquote])), Cls (Ch dquote)],
      cat [Lit ''className'', Star Space, Lit ''='', Star Space, Cls (Ch squote),
           Grp (Star (NoneOf [squote])), Cls (Ch squote)],
      cat [Lit ''class'', Star Space, Lit ''='', Star Space, Cls (Ch dquote),
           Grp (Star (NoneOf [dquote])), Cls (Ch dquote)],
      cat [Lit ''class'', Star Space, Lit ''='', Star Space, Cls (Ch squote),
           Grp (Star (NoneOf [squote])), Cls (Ch squote)],
      cat [Lit ''className'', Star Space, Lit ''='', Star Space, Lit ''{'',
           Cls (OneOf [btick, squote, dquote]), Grp (Star (NoneOf [btick, squote, dquote])),
           Cls (OneOf [btick, squote, dquote]), Lit ''}''],
      cat [Lit ''className'', Star Space, Lit ''='', Star Space, Lit ''{'', Cls (Ch btick),
           Grp (Star (NoneOf [btick])), Cls (Ch btick), Lit ''}'']]"

definition extract_class_strings :: "string \<Rightarrow> nat \<Rightarrow> string \<Rightarrow> string list" where
  "extract_class_strings content line_num line =
     fold (\<lambda>pattern classes. classes @ re_findall pattern line) class_patterns []"

section \<open>Rule set\<close>

subsection \<open>breakpoint_compliance\<close>

text \<open>
  \<open>utility_breakpoints\<close> is a Python dict, which keeps its keys in insertion order: an
  association list whose keys are distinct. \<open>al_append\<close> is
  \<^verbatim>\<open>if k not in d: d[k] = []\<close> followed by \<^verbatim>\<open>d[k].append(v)\<close>.
\<close>

fun al_append :: "('k \<times> 'v list) list \<Rightarrow> 'k \<Rightarrow> 'v \<Rightarrow> ('k \<times> 'v list) list" where
  "al_append [] k v = [(k, [v])]"
| "al_append ((k', vs) # m) k v =
     (if k' = k then (k', vs @ [v]) # m else (k', vs) # al_append m k v)"

definition bp_rank :: "string \<Rightarrow> nat" where
  "bp_rank bp = first_index BREAKPOINT_ORDER bp"

definition record_class ::
  "string list \<Rightarrow> string \<Rightarrow> (string \<times> (string \<times> nat) list) list
     \<Rightarrow> (string \<times> (string \<times> nat) list) list" where
  "record_class classes cls m =
     fold (\<lambda>bp m. if startswith cls (bp @ '':'')
                   then al_append m (drop (length bp + 1) cls) (bp, first_index classes cls)
                   else m)
          BREAKPOINT_ORDER m"

definition utility_breakpoints :: "string list \<Rightarrow> (string \<times> (string \<times> nat) list) list" where
  "utility_breakpoints classes = fold (record_class classes) classes []"

text \<open>
  The loop \<^verbatim>\<open>for i in range(len(bp_indices) - 1)\<close> over neighbouring entries, which
  stops at the first pair it reports: is there a pair to report.
\<close>

fun out_of_order :: "nat list \<Rightarrow> nat list \<Rightarrow> bool" where
  "out_of_order (b1 # b2 # bs) (p1 # p2 # ps) =
     (if b1 > b2 \<and> p1 < p2 then True else out_of_order (b2 # bs) (p2 # ps))"
| "out_of_order bs ps = False"

definition order_message :: "string \<Rightarrow> string" where
  "order_message utility = ''Breakpoint order violation for '' @ [squote] @ utility @ [squote] @
     ''. Use mobile-first order: sm -> md -> lg -> xl''"

definition check_utility ::
  "string \<Rightarrow> nat \<Rightarrow> string \<Rightarrow> string \<times> (string \<times> nat) list \<Rightarrow> AuditResult \<Rightarrow> AuditResult" where
  "check_utility class_str line_num fpath ub result =
     (case ub of (utility, breakpoints) \<Rightarrow>
        if length breakpoints > 1
        then (let bp_indices = map (\<lambda>(bp, pos). bp_rank bp) breakpoints;
                  position_indices = map (\<lambda>(bp, pos). pos) breakpoints
              in if out_of_order bp_indices position_indices
                 then add_violation result
                        \<lparr>file_path = fpath, line_number = line_num,
                         category = BREAKPOINT_COMPLIANCE, severity = WARNING,
                         rule = ''breakpoint_order'', snippet = take 80 class_str,
                         message = order_message utility\<rparr>
                 else result)
        else result)"

definition check_breakpoint_order ::
  "string \<Rightarrow> nat \<Rightarrow> string \<Rightarrow> string \<Rightarrow> AuditResult \<Rightarrow> AuditResult" where
  "check_breakpoint_order class_str line_num fpath line result =
     (let classes = split class_str
      in fold (check_utility class_str line_num fpath) (utility_breakpoints classes) result)"

definition check_breakpoint_compliance ::
  "string \<Rightarrow> nat \<Rightarrow> string \<Rightarrow> AuditResult \<Rightarrow> AuditResult" where
  "check_breakpoint_compliance line line_num fpath result =
     (let r1 = fold (\<lambda>pattern r.
                  if re_findall pattern line \<noteq> []
                  then add_violation r
                         \<lparr>file_path = fpath, line_number = line_num,
                          category = BREAKPOINT_COMPLIANCE, severity = CRITICAL,
                          rule = ''invalid_breakpoint'', snippet = take 100 (strip line),
                          message = ''Invalid breakpoint pattern detected. Only sm, md, lg, xl allowed.''\<rparr>
                  else r)
                INVALID_BREAKPOINT_PATTERNS result;
          class_strings = extract_class_strings [] line_num line
      in fold (\<lambda>class_str r. check_breakpoint_order class_str line_num fpath line r)
           class_strings r1)"

subsection \<open>hardcoded_size\<close>

definition check_hardcoded_sizes ::
  "string \<Rightarrow> nat \<Rightarrow> string \<Rightarrow> AuditResult \<Rightarrow> AuditResult" where
  "check_hardcoded_sizes line line_num fpath result =
     (let r1 = fold (\<lambda>(pattern, name) r.
                  if re_findall pattern line \<noteq> []
                  then add_violation r
                         \<lparr>file_path = fpath, line_number = line_num,
                          category = HARDCODED_SIZE, severity = WARNING,
                          rule = ''hardcoded_px_value'', snippet = take 100 (strip line),
                          message = ''Hardcoded pixel value detected ('' @ name @
                            ''). Use Tailwind scale tokens, %, rem, or em instead.''\<rparr>
                  else r)
                HARDCODED_PX_PATTERNS result
      in fold (\<lambda>pattern r.
                  if re_search True pattern line
                  then add_violation r
                         \<lparr>file_path = fpath, line_number = line_num,
                          category = HARDCODED_SIZE, severity = CRITICAL,
                          rule = ''inline_style_px'', snippet = take 100 (strip line),
                          message = ''Inline style with pixel value detected. Use Tailwind utilities instead.''\<rparr>
                  else r)
           INLINE_STYLE_PX_PATTERNS r1)"

subsection \<open>layout_antipattern\<close>

definition layout_one :: "string list \<Rightarrow> nat \<Rightarrow> string \<Rightarrow> string \<Rightarrow> AuditResult \<Rightarrow> AuditResult" where
  "layout_one bps line_num fpath class_str result =
     (let classes = split class_str;
          has_absolute = (''absolute'' \<in> set classes);
          has_fixed = (''fixed'' \<in> set classes);
          has_responsive_position =
            list_ex (\<lambda>bp. list_ex (\<lambda>cls.
                startswith cls (bp @ '':absolute'') \<or> startswith cls (bp @ '':fixed'') \<or>
                startswith cls (bp @ '':relative'') \<or> startswith cls (bp @ '':static'')) classes) bps;
          r1 = (if (has_absolute \<or> has_fixed) \<and> \<not> has_responsive_position
                then (let position_utility = (if has_absolute then ''absolute'' else ''fixed'')
                      in add_violation result
                           \<lparr>file_path = fpath, line_number = line_num,
                            category = LAYOUT_ANTIPATTERN, severity = WARNING,
                            rule = ''position_no_responsive'', snippet = take 80 class_str,
                            message = [squote] @ position_utility @ [squote] @
                              '' used without responsive override. Consider adding breakpoint variants.''\<rparr>)
                else result);
          r2 = (if ''overflow-hidden'' \<in> set classes
                then (let layout_indicators = [''flex'', ''grid'', ''container'', ''mx-auto'']
                      in if list_ex (\<lambda>ind. ind \<in> set classes) layout_indicators
                         then add_violation r1
                                \<lparr>file_path = fpath, line_number = line_num,
                                 category = LAYOUT_ANTIPATTERN, severity = WARNING,
                                 rule = ''overflow_hidden_layout'', snippet = take 80 class_str,
                                 message = [squote] @ ''overflow-hidden'' @ [squote] @
                                   '' on layout container may cause clipping issues.''\<rparr>
                         else r1)
                else r1)
      in if ''h-screen'' \<in> set classes
         then (let has_responsive_height =
                     list_ex (\<lambda>bp. list_ex (\<lambda>cls. startswith cls (bp @ '':h-'')) classes) bps
               in if \<not> has_responsive_height
                  then add_violation r2
                         \<lparr>file_path = fpath, line_number = line_num,
                          category = LAYOUT_ANTIPATTERN, severity = WARNING,
                          rule = ''h_screen_no_responsive'', snippet = take 80 class_str,
                          message = [squote] @ ''h-screen'' @ [squote] @
                            '' without breakpoint control may cause issues on mobile.''\<rparr>
                  else r2)
         else r2)"

definition check_layout_antipatterns ::
  "string list \<Rightarrow> string \<Rightarrow> nat \<Rightarrow> string \<Rightarrow> string \<Rightarrow> AuditResult \<Rightarrow> AuditResult" where
  "check_layout_antipatterns bps line line_num fpath content result =
     (let class_strings = extract_class_strings content line_num line
      in fold (layout_one bps line_num fpath) class_strings result)"

subsection \<open>responsive_coverage\<close>

definition has_responsive_grid :: "string list \<Rightarrow> string \<Rightarrow> bool" where
  "has_responsive_grid bps class_str =
     list_ex (\<lambda>bp. re_search False (cat [WordB, Lit (bp @ '':grid-cols-'')]) class_str) bps"

text \<open>
  The loop over the matches of one class string, left when it reports. A match that is
  not a digit run counts as two columns; ValueError from \<^verbatim>\<open>int\<close> is caught and the loop
  goes on.
\<close>

fun coverage_matches ::
  "bool \<Rightarrow> nat \<Rightarrow> string \<Rightarrow> string \<Rightarrow> string list \<Rightarrow> AuditResult \<Rightarrow> AuditResult" where
  "coverage_matches hrg line_num fpath class_str [] result = result"
| "coverage_matches hrg line_num fpath class_str (m # ms) result =
     (case (if isdigit m then py_int m else Some 2) of
        None \<Rightarrow> coverage_matches hrg line_num fpath class_str ms result
      | Some cols \<Rightarrow>
          if cols > 1 \<and> \<not> hrg
          then add_violation result
                 \<lparr>file_path = fpath, line_number = line_num,
                  category = RESPONSIVE_COVERAGE, severity = WARNING,
                  rule = ''grid_cols_no_responsive'', snippet = take 80 class_str,
                  message = [squote] @ ''grid-cols-'' @ m @ [squote] @
                    '' without responsive variants. Consider: grid-cols-1 md:grid-cols-'' @ m\<rparr>
          else coverage_matches hrg line_num fpath class_str ms result)"

definition coverage_one :: "string list \<Rightarrow> nat \<Rightarrow> string \<Rightarrow> string \<Rightarrow> AuditResult \<Rightarrow> AuditResult" where
  "coverage_one bps line_num fpath class_str result =
     (let grid_cols_matches = re_findall GRID_COLS_PATTERN class_str
      in if grid_cols_matches \<noteq> []
         then coverage_matches (has_responsive_grid bps class_str) line_num fpath class_str
                grid_cols_matches result
         else result)"

definition check_responsive_coverage ::
  "string list \<Rightarrow> string \<Rightarrow> nat \<Rightarrow> string \<Rightarrow> AuditResult \<Rightarrow> AuditResult" where
  "check_responsive_coverage bps line line_num fpath result =
     (let class_strings = extract_class_strings [] line_num line
      in fold (coverage_one bps line_num fpath) class_strings result)"

subsection \<open>flex_grid_pattern\<close>

definition grid_cols_num :: regex where
  "grid_cols_num = cat [WordB, Lit ''grid-cols-'', Grp (Plus Digit), WordB]"

definition responsive_grid_cols_num :: regex where
  "responsive_grid_cols_num =
     cat [WordB, Alt (Lit ''sm'') (Alt (Lit ''md'') (Alt (Lit ''lg'') (Lit ''xl''))),
          Lit '':grid-cols-'', Grp (Plus Digit), WordB]"

text \<open>\<^verbatim>\<open>int(cols)\<close> is not guarded here: its ValueError would end the run.\<close>

definition flex_grid_one ::
  "string list \<Rightarrow> nat \<Rightarrow> string \<Rightarrow> string \<Rightarrow> AuditResult \<Rightarrow> py_error + AuditResult" where
  "flex_grid_one bps line_num fpath class_str result =
     (let classes = split class_str;
          has_flex = (''flex'' \<in> set classes);
          has_flex_row = (''flex-row'' \<in> set classes);
          has_flex_col = (''flex-col'' \<in> set classes);
          has_responsive_flex_row =
            list_ex (\<lambda>bp. list_ex (\<lambda>cls. startswith cls (bp @ '':flex-row'')) classes) bps;
          r1 = (if has_flex \<and> has_flex_row \<and> \<not> has_flex_col \<and> \<not> has_responsive_flex_row
                then add_violation result
                       \<lparr>file_path = fpath, line_number = line_num,
                        category = FLEX_GRID_PATTERN, severity = WARNING,
                        rule = ''flex_row_no_base'', snippet = take 80 class_str,
                        message = [squote] @ ''flex-row'' @ [squote] @ '' without '' @ [squote] @
                          ''flex-col'' @ [squote] @ '' base. Consider: flex flex-col md:flex-row''\<rparr>
                else result);
          grid_matches = re_findall grid_cols_num class_str;
          responsive_grid_matches = re_findall responsive_grid_cols_num class_str
      in if length grid_matches = 1 \<and> length responsive_grid_matches = 0
         then (case grid_matches of
                 [] \<Rightarrow> Inr r1
               | cols # _ \<Rightarrow>
                   (case py_int cols of
                      None \<Rightarrow> Inl ValueError
                    | Some n \<Rightarrow>
                        if n > 2
                        then Inr (add_violation r1
                               \<lparr>file_path = fpath, line_number = line_num,
                                category = FLEX_GRID_PATTERN, severity = WARNING,
                                rule = ''grid_no_escalation'', snippet = take 80 class_str,
                                message = [squote] @ ''grid-cols-'' @ cols @ [squote] @
                                  '' without breakpoint escalation. Consider: grid-cols-1 sm:grid-cols-2 md:grid-cols-'' @ cols\<rparr>)
                        else Inr r1))
         else Inr r1)"

fun flex_grid_all ::
  "string list \<Rightarrow> nat \<Rightarrow> string \<Rightarrow> string list \<Rightarrow> AuditResult \<Rightarrow> py_error + AuditResult" where
  "flex_grid_all bps line_num fpath [] result = Inr result"
| "flex_grid_all bps line_num fpath (class_str # rest) result =
     (case flex_grid_one bps line_num fpath class_str result of
        Inl e \<Rightarrow> Inl e
      | Inr r \<Rightarrow> flex_grid_all bps line_num fpath rest r)"

definition check_flex_grid_patterns ::
  "string list \<Rightarrow> string \<Rightarrow> nat \<Rightarrow> string \<Rightarrow> AuditResult \<Rightarrow> py_error + AuditResult" where
  "check_flex_grid_patterns bps line line_num fpath result =
     flex_grid_all bps line_num fpath (extract_class_strings [] line_num line) result"

subsection \<open>inline_style\<close>

definition jsx_style :: regex where
  "jsx_style = cat [Lit ''style'', Star Space, Lit ''='', Star Space, Lit ''{'', Star Space, Lit ''{'']"

definition html_style :: regex where
  "html_style = cat [Lit ''style'', Star Space, Lit ''='', Star Space, Cls (OneOf [dquote, squote])]"

definition prop_pattern :: "string \<Rightarrow> regex" where
  "prop_pattern prop = cat [Lit prop, Star Space, Lit '':'']"

definition style_block :: regex where
  "style_block = cat [Lit ''<style'', Star (NoneOf ''>''), Lit ''>'']"

definition media_query :: regex where
  "media_query = cat [Lit ''@media'', Star Space, Lit ''('']"

definition jsx_layout_props :: "string list" where
  "jsx_layout_props =
     [''width'', ''height'', ''display'', ''position'', ''flex'', ''grid'', ''margin'', ''padding'']"

definition html_layout_props :: "string list" where
  "html_layout_props = [''width'', ''height'', ''display'', ''position'', ''flex'', ''grid'']"

text \<open>
  A loop over the property names that stops at the first one found on the line is
  \<^const>\<open>find\<close>: the first name of the list whose pattern matches, if any.
\<close>

definition check_inline_styles ::
  "string \<Rightarrow> nat \<Rightarrow> string \<Rightarrow> AuditResult \<Rightarrow> AuditResult" where
  "check_inline_styles line line_num fpath result =
     (let r1 = (if re_search False jsx_style line
                then (case find (\<lambda>prop. re_search True (prop_pattern prop) line) jsx_layout_props of
                        None \<Rightarrow> result
                      | Some prop \<Rightarrow> add_violation result
                          \<lparr>file_path = fpath, line_number = line_num,
                           category = INLINE_STYLE, severity = CRITICAL,
                           rule = ''inline_style_layout'', snippet = take 100 (strip line),
                           message = ''Inline style with layout property '' @ [squote] @ prop @
                             [squote] @ ''. Use Tailwind utilities instead.''\<rparr>)
                else result);
          r2 = (if re_search False html_style line
                then (case find (\<lambda>prop. re_search True (prop_pattern prop) line) html_layout_props of
                        None \<Rightarrow> r1
                      | Some prop \<Rightarrow> add_violation r1
                          \<lparr>file_path = fpath, line_number = line_num,
                           category = INLINE_STYLE, severity = CRITICAL,
                           rule = ''inline_style_html'', snippet = take 100 (strip line),
                           message = ''HTML inline style with layout property '' @ [squote] @ prop @
                             [squote] @ ''. Use Tailwind utilities instead.''\<rparr>)
                else r1);
          r3 = (if re_search True style_block line
                then add_violation r2
                       \<lparr>file_path = fpath, line_number = line_num,
                        category = INLINE_STYLE, severity = WARNING,
                        rule = ''style_block'', snippet = take 100 (strip line),
                        message = ''<style> block detected. Prefer Tailwind utilities for styling.''\<rparr>
                else r2)
      in if re_search False media_query line
         then add_violation r3
                \<lparr>file_path = fpath, line_number = line_num,
                 category = INLINE_STYLE, severity = CRITICAL,
                 rule = ''custom_media_query'', snippet = take 100 (strip line),
                 message = ''Custom @media query detected. Use Tailwind breakpoint prefixes instead.''\<rparr>
         else r3)"

section \<open>Audit engine\<close>

text \<open>
  A path is the list of its components (\<^verbatim>\<open>Path.parts\<close>); paths compare as Python compares
  them, component by component. The project tree is the list of the paths below the root,
  in the order in which one traversal of the directory yields them, and \<open>read\<close> gives the
  text of a file, or \<open>None\<close> where \<^verbatim>\<open>read_text\<close> raises.
\<close>

type_synonym path = "string list"

definition endswith :: "string \<Rightarrow> string \<Rightarrow> bool" where
  "endswith s suffix = startswith (rev s) (rev suffix)"

fun join_parts :: "string list \<Rightarrow> string" where
  "join_parts [] = []"
| "join_parts [x] = x"
| "join_parts (x # y # r) = x @ ''/'' @ join_parts (y # r)"

definition path_str :: "path \<Rightarrow> string" where
  "path_str f = (case f of [] \<Rightarrow> ''.''
                 | a # r \<Rightarrow> if a = ''/'' then ''/'' @ join_parts r else join_parts (a # r))"

definition rglob :: "string \<Rightarrow> path list \<Rightarrow> path list" where
  "rglob ext tree =
     filter (\<lambda>f. case rev f of [] \<Rightarrow> False | name # _ \<Rightarrow> endswith name ext) tree"

definition exclusions :: "string list" where
  "exclusions = [''node_modules'', ''.git'', ''dist'', ''build'', ''.next'', ''.nuxt'', ''coverage'']"

definition find_files :: "string list \<Rightarrow> path list \<Rightarrow> path list" where
  "find_files exts tree =
     (let files = fold (\<lambda>ext files. files @ rglob ext tree) exts [];
          filtered = filter (\<lambda>f. \<not> list_ex (\<lambda>excl. excl \<in> set f) exclusions) files
      in sort filtered)"

definition audit_line ::
  "string list \<Rightarrow> string \<Rightarrow> string \<Rightarrow> nat \<times> string \<Rightarrow> AuditResult \<Rightarrow> py_error + AuditResult" where
  "audit_line bps content rel_path numbered result =
     (case numbered of (line_num, line) \<Rightarrow>
        (let stripped = strip line
         in if stripped = [] \<or> startswith stripped ''//'' \<or> startswith stripped ''/*''
            then Inr result
            else (let r1 = check_breakpoint_compliance line line_num rel_path result;
                      r2 = check_hardcoded_sizes line line_num rel_path r1;
                      r3 = check_layout_antipatterns bps line line_num rel_path content r2;
                      r4 = check_responsive_coverage bps line line_num rel_path r3
                  in case check_flex_grid_patterns bps line line_num rel_path r4 of
                       Inl e \<Rightarrow> Inl e
                     | Inr r5 \<Rightarrow> Inr (check_inline_styles line line_num rel_path r5))))"

fun audit_lines ::
  "string list \<Rightarrow> string \<Rightarrow> string \<Rightarrow> (nat \<times> string) list \<Rightarrow> AuditResult \<Rightarrow> py_error + AuditResult" where
  "audit_lines bps content rel_path [] result = Inr result"
| "audit_lines bps content rel_path (l # ls) result =
     (case audit_line bps content rel_path l result of
        Inl e \<Rightarrow> Inl e
      | Inr r \<Rightarrow> audit_lines bps content rel_path ls r)"

definition audit_file ::
  "string list \<Rightarrow> (path \<Rightarrow> string option) \<Rightarrow> path \<Rightarrow> AuditResult \<Rightarrow> py_error + AuditResult" where
  "audit_file bps read fpath result =
     (case read fpath of
        None \<Rightarrow> Inr result
      | Some content \<Rightarrow>
          (let lines = split_lines content;
               rel_path = path_str fpath
           in audit_lines bps content rel_path (zip [1 ..< Suc (length lines)] lines) result))"

fun audit_files ::
  "string list \<Rightarrow> (path \<Rightarrow> string option) \<Rightarrow> path list \<Rightarrow> AuditResult \<Rightarrow> py_error + AuditResult" where
  "audit_files bps read [] result = Inr result"
| "audit_files bps read (f # fs) result =
     (case audit_file bps read f result of
        Inl e \<Rightarrow> Inl e
      | Inr r \<Rightarrow> audit_files bps read fs r)"

definition run_audit ::
  "string list \<Rightarrow> string list \<Rightarrow> path list \<Rightarrow> (path \<Rightarrow> string option) \<Rightarrow> py_error + AuditResult" where
  "run_audit exts bps tree read =
     (let result = new_result;
          files = find_files exts tree;
          result = result\<lparr>files_scanned := length files\<rparr>
      in audit_files bps read files result)"

text \<open>
  The exit status of \<^verbatim>\<open>main\<close>: 2 when the project path is missing or not a directory,
  then the ladder over the counts of the result. An exception that nothing catches ends
  the interpreter with status 1.
\<close>

definition exit_status :: "AuditResult \<Rightarrow> nat" where
  "exit_status result =
     (if critical_count result > 0 then 2
      else if warning_count result > 0 then 1
      else 0)"

definition main ::
  "bool \<Rightarrow> bool \<Rightarrow> string list \<Rightarrow> string list \<Rightarrow> path list \<Rightarrow> (path \<Rightarrow> string option) \<Rightarrow> nat" where
  "main path_exists path_is_dir exts bps tree read =
     (if \<not> path_exists then 2
      else if \<not> path_is_dir then 2
      else (case run_audit exts bps tree read of
              Inl e \<Rightarrow> 1
            | Inr result \<Rightarrow> exit_status result))"

section \<open>What the rules add to a result\<close>

text \<open>
  The category under which each rule identifier is reported, read off the rule set, and
  the relation between a result and a later one: the count of files is kept, and the
  violations are extended at the end by violations that carry the category of their rule.
\<close>

definition category_of_rule :: "string \<Rightarrow> Category" where
  "category_of_rule r =
     (if r = ''invalid_breakpoint'' \<or> r = ''breakpoint_order'' then BREAKPOINT_COMPLIANCE
      else if r = ''hardcoded_px_value'' \<or> r = ''inline_style_px'' then HARDCODED_SIZE
      else if r = ''position_no_responsive'' \<or> r = ''overflow_hidden_layout'' \<or>
              r = ''h_screen_no_responsive'' then LAYOUT_ANTIPATTERN
      else if r = ''grid_cols_no_responsive'' then RESPONSIVE_COVERAGE
      else if r = ''flex_row_no_base'' \<or> r = ''grid_no_escalation'' then FLEX_GRID_PATTERN
      else INLINE_STYLE)"

definition well_tagged :: "Violation \<Rightarrow> bool" where
  "well_tagged v = (category v = category_of_rule (rule v))"

definition grows :: "AuditResult \<Rightarrow> AuditResult \<Rightarrow> bool" where
  "grows r r' = (files_scanned r' = files_scanned r \<and>
     (\<exists>vs. violations r' = violations r @ vs \<and> list_all well_tagged vs))"

definition grows_sum :: "AuditResult \<Rightarrow> py_error + AuditResult \<Rightarrow> bool" where
  "grows_sum r x = (case x of Inl e \<Rightarrow> True | Inr r' \<Rightarrow> grows r r')"

text \<open>How many violations of a result carry a given rule identifier.\<close>

definition count_rule :: "string \<Rightarrow> AuditResult \<Rightarrow> nat" where
  "count_rule n r = length (filter (\<lambda>v. rule v = n) (violations r))"

text \<open>
  The matches of the token extractor with their origin: the index of the pattern in
  \<open>class_patterns\<close>, the offset in the line at which the match starts, and the extracted
  text. \<open>pattern_major\<close> orders them by pattern first and by offset within a pattern.
\<close>

fun tag_matches :: "nat \<Rightarrow> regex list \<Rightarrow> string \<Rightarrow> (nat \<times> nat \<times> string) list" where
  "tag_matches k [] line = []"
| "tag_matches k (r # rs) line =
     map (\<lambda>(i, m). (k, i, m)) (finditer r 0 None line) @ tag_matches (Suc k) rs line"

definition extract_positions :: "string \<Rightarrow> (nat \<times> nat \<times> string) list" where
  "extract_positions line = tag_matches 0 class_patterns line"

definition pattern_major :: "nat \<times> nat \<times> string \<Rightarrow> nat \<times> nat \<times> string \<Rightarrow> bool" where
  "pattern_major a b = (fst a < fst b \<or> (fst a = fst b \<and> fst (snd a) < fst (snd b)))"

text \<open>
  For the ordering check: the value that the dict holds for a key (empty when the key is
  absent), the test that \<open>check_utility\<close> applies to it, and the number of violations
  of a result that report the order of one utility.
\<close>

definition al_lookup :: "('k \<times> 'v list) list \<Rightarrow> 'k \<Rightarrow> 'v list" where
  "al_lookup m k = (case map_of m k of None \<Rightarrow> [] | Some vs \<Rightarrow> vs)"






section \<open>Inputs used by the concrete checks\<close>

definition demo_exts :: "string list" where
  "demo_exts = [''.tsx'', ''.jsx'', ''.ts'', ''.js'', ''.html'', ''.mdx'']"

definition demo_bps :: "string list" where
  "demo_bps = [''sm'', ''md'', ''lg'', ''xl'']"

section \<open>Exit status\<close>

lemma severity_partition:
  "length (filter (\<lambda>v. severity v = CRITICAL) vs) = 0 \<Longrightarrow>
   length (filter (\<lambda>v. severity v = WARNING) vs) = 0 \<Longrightarrow> vs = []"
proof (cases vs)
  case Nil
  then show ?thesis by simp
next
  case (Cons v rest)
  assume c: "length (filter (\<lambda>v. severity v = CRITICAL) vs) = 0"
    and w: "length (filter (\<lambda>v. severity v = WARNING) vs) = 0"
  show ?thesis
  proof (cases "severity v")
    case WARNING
    with w Cons show ?thesis by simp
  next
    case CRITICAL
    with c Cons show ?thesis by simp
  qed
qed

text \<open>
  C1. For every audit run that completes with result \<open>r\<close>, the exit status of \<open>main\<close> is 2
  when \<open>r\<close> has at least one Critical violation, 1 when it has no Critical violation but at
  least one Warning, and 0 when it has no violation at all; and it is 0 in no other case.
\<close>

theorem exit_status_contract:
  assumes "run_audit exts bps tree read = Inr r"
  shows "(critical_count r > 0 \<longrightarrow> main True True exts bps tree read = 2) \<and>
         (critical_count r = 0 \<and> warning_count r > 0 \<longrightarrow> main True True exts bps tree read = 1) \<and>
         (violations r = [] \<longrightarrow> main True True exts bps tree read = 0) \<and>
         (main True True exts bps tree read = 0 \<longrightarrow> violations r = [])"
proof -
  have m: "main True True exts bps tree read = exit_status r"
    using assms by (simp add: main_def)
  have z: "exit_status r = 0 \<Longrightarrow> violations r = []"
    using severity_partition [of "violations r"]
    by (simp add: exit_status_def critical_count_def warning_count_def split: if_splits)
  have e: "violations r = [] \<Longrightarrow> exit_status r = 0"
    by (simp add: exit_status_def critical_count_def warning_count_def)
  show ?thesis
    using z e by (simp add: m) (simp add: exit_status_def)
qed

theorem exit_status_contract_witness:
  "main True True demo_exts demo_bps [[''a.js'']] (\<lambda>f. Some ''xs:'') = 2"
proof -
  have h: "run_audit demo_exts demo_bps [[''a.js'']] (\<lambda>f. Some ''xs:'') =
      Inr \<lparr>violations =
             [\<lparr>file_path = ''a.js'', line_number = 1, category = BREAKPOINT_COMPLIANCE,
               severity = CRITICAL, rule = ''invalid_breakpoint'', snippet = ''xs:'',
               message = ''Invalid breakpoint pattern detected. Only sm, md, lg, xl allowed.''\<rparr>],
           files_scanned = 1\<rparr>"
    by code_simp
  show ?thesis
    using exit_status_contract [OF h] by (simp add: critical_count_def)
qed

section \<open>Every rule extends the result\<close>

lemma grows_refl: "grows r r"
  by (simp add: grows_def)

lemma grows_trans: "grows a b \<Longrightarrow> grows b c \<Longrightarrow> grows a c"
  by (auto simp: grows_def)

lemma grows_add: "well_tagged v \<Longrightarrow> grows r (add_violation r v)"
  by (simp add: grows_def add_violation_def)

lemma grows_fold:
  assumes "\<And>x r. grows r (f x r)"
  shows "grows r (fold f xs r)"
proof (induction xs arbitrary: r)
  case Nil
  show ?case by (simp add: grows_refl)
next
  case (Cons x xs)
  have "grows r (f x r)" by (rule assms)
  moreover have "grows (f x r) (fold f xs (f x r))" by (rule Cons.IH)
  ultimately show ?case by (auto intro: grows_trans)
qed

lemma grows_check_utility: "grows r (check_utility cs ln fp ub r)"
  by (cases ub) (simp add: check_utility_def Let_def grows_refl grows_add well_tagged_def category_of_rule_def)

lemma grows_check_breakpoint_order: "grows r (check_breakpoint_order cs ln fp line r)"
  unfolding check_breakpoint_order_def Let_def by (rule grows_fold) (rule grows_check_utility)

lemma grows_check_breakpoint_compliance: "grows r (check_breakpoint_compliance line ln fp r)"
  unfolding check_breakpoint_compliance_def Let_def
  apply (rule grows_trans [OF grows_fold grows_fold])
   apply (simp add: grows_refl grows_add well_tagged_def category_of_rule_def)
  apply (rule grows_check_breakpoint_order)
  done

lemma grows_check_hardcoded_sizes: "grows r (check_hardcoded_sizes line ln fp r)"
  unfolding check_hardcoded_sizes_def Let_def
  apply (rule grows_trans [OF grows_fold grows_fold])
   apply (simp add: grows_refl grows_add well_tagged_def category_of_rule_def split: prod.splits)
  apply (simp add: grows_refl grows_add well_tagged_def category_of_rule_def)
  done

lemma grows_layout_one: "grows r (layout_one bps ln fp cs r)"
  unfolding layout_one_def Let_def
  by (auto intro!: grows_refl grows_add grows_trans [OF _ grows_add] grows_trans [OF grows_add grows_add]
      simp: well_tagged_def category_of_rule_def)

lemma grows_Let_any: "(\<And>x. grows r (f x)) \<Longrightarrow> grows r (Let a f)"
  by simp

lemma grows_Let_res: "grows r a \<Longrightarrow> (\<And>x. grows x (f x)) \<Longrightarrow> grows r (Let a f)"
  by (auto intro: grows_trans)

lemma grows_sum_Inr: "x = Inr r' \<Longrightarrow> grows_sum r x \<Longrightarrow> grows r r'"
  by (simp add: grows_sum_def)

lemma grows_sum_Let_any: "(\<And>x. grows_sum r (f x)) \<Longrightarrow> grows_sum r (Let a f)"
  by simp

lemma grows_sum_trans: "grows r a \<Longrightarrow> grows_sum a x \<Longrightarrow> grows_sum r x"
  by (auto simp: grows_sum_def split: sum.splits intro: grows_trans)

lemma grows_sum_Let_res: "grows r a \<Longrightarrow> (\<And>x. grows_sum x (f x)) \<Longrightarrow> grows_sum r (Let a f)"
  by (auto intro: grows_sum_trans)

lemma grows_check_layout_antipatterns: "grows r (check_layout_antipatterns bps line ln fp content r)"
  unfolding check_layout_antipatterns_def Let_def by (rule grows_fold) (rule grows_layout_one)

lemma grows_coverage_matches: "grows r (coverage_matches hrg ln fp cs ms r)"
proof (induction ms arbitrary: hrg)
  case Nil
  show ?case by (simp add: grows_refl)
next
  case (Cons m ms)
  show ?case
    by (simp add: Cons.IH grows_add well_tagged_def category_of_rule_def split: option.splits)
qed

lemma grows_coverage_one: "grows r (coverage_one bps ln fp cs r)"
  by (simp add: coverage_one_def Let_def grows_refl grows_coverage_matches)

lemma grows_check_responsive_coverage: "grows r (check_responsive_coverage bps line ln fp r)"
  unfolding check_responsive_coverage_def Let_def by (rule grows_fold) (rule grows_coverage_one)

lemma grows_check_inline_styles: "grows r (check_inline_styles line ln fp r)"
  unfolding check_inline_styles_def
  apply (rule grows_Let_res)
   apply (simp add: grows_refl grows_add well_tagged_def category_of_rule_def split: option.splits)
  apply (rule grows_Let_res)
   apply (simp add: grows_refl grows_add well_tagged_def category_of_rule_def split: option.splits)
  apply (rule grows_Let_res)
   apply (simp add: grows_refl grows_add well_tagged_def category_of_rule_def)
  apply (simp add: grows_refl grows_add well_tagged_def category_of_rule_def)
  done

lemma grows_sum_flex_grid_one: "grows_sum r (flex_grid_one bps ln fp cs r)"
  unfolding flex_grid_one_def
  apply (rule grows_sum_Let_any)
  apply (rule grows_sum_Let_any)
  apply (rule grows_sum_Let_any)
  apply (rule grows_sum_Let_any)
  apply (rule grows_sum_Let_any)
  apply (rule grows_sum_Let_res)
   apply (simp add: grows_refl grows_add well_tagged_def category_of_rule_def)
  apply (rule grows_sum_Let_any)+
  apply (simp add: grows_sum_def grows_refl grows_add well_tagged_def category_of_rule_def
      split: list.splits option.splits)
  done

lemma grows_sum_flex_grid_all: "grows_sum r (flex_grid_all bps ln fp css r)"
proof (induction css arbitrary: r)
  case Nil
  show ?case by (simp add: grows_sum_def grows_refl)
next
  case (Cons cs css)
  show ?case
  proof (cases "flex_grid_one bps ln fp cs r")
    case (Inl e)
    then show ?thesis by (simp add: grows_sum_def)
  next
    case (Inr r1)
    have "grows r r1"
      using grows_sum_flex_grid_one [of r bps ln fp cs] Inr by (simp add: grows_sum_def)
    then show ?thesis
      using Inr Cons.IH [of r1] by (simp add: grows_sum_trans)
  qed
qed

lemma grows_sum_audit_line: "grows_sum r (audit_line bps content fp nl r)"
proof (cases nl)
  case (Pair ln line)
  show ?thesis
  proof (cases "strip line = [] \<or> startswith (strip line) ''//'' \<or> startswith (strip line) ''/*''")
    case True
    with Pair show ?thesis by (auto simp: audit_line_def Let_def grows_sum_def grows_refl)
  next
    case False
    let ?r1 = "check_breakpoint_compliance line ln fp r"
    let ?r2 = "check_hardcoded_sizes line ln fp ?r1"
    let ?r3 = "check_layout_antipatterns bps line ln fp content ?r2"
    let ?r4 = "check_responsive_coverage bps line ln fp ?r3"
    have e: "audit_line bps content fp nl r =
        (case check_flex_grid_patterns bps line ln fp ?r4 of
           Inl e \<Rightarrow> Inl e | Inr r5 \<Rightarrow> Inr (check_inline_styles line ln fp r5))"
      using Pair False by (simp add: audit_line_def Let_def)
    have g4: "grows r ?r4"
      by (rule grows_trans [OF grows_trans [OF grows_trans
            [OF grows_check_breakpoint_compliance grows_check_hardcoded_sizes]
            grows_check_layout_antipatterns] grows_check_responsive_coverage])
    show ?thesis
    proof (cases "check_flex_grid_patterns bps line ln fp ?r4")
      case (Inl x)
      then show ?thesis by (simp add: e grows_sum_def)
    next
      case (Inr r5)
      have "grows ?r4 r5"
        using grows_sum_flex_grid_all [of ?r4 bps ln fp "extract_class_strings [] ln line"] Inr
        by (simp add: check_flex_grid_patterns_def grows_sum_def)
      then have "grows r (check_inline_styles line ln fp r5)"
        by (rule grows_trans [OF grows_trans [OF g4] grows_check_inline_styles])
      then show ?thesis by (simp add: e Inr grows_sum_def)
    qed
  qed
qed

lemma grows_sum_audit_lines: "grows_sum r (audit_lines bps content fp ls r)"
proof (induction ls arbitrary: r)
  case Nil
  show ?case by (simp add: grows_sum_def grows_refl)
next
  case (Cons l ls)
  show ?case
  proof (cases "audit_line bps content fp l r")
    case (Inl e)
    then show ?thesis by (simp add: grows_sum_def)
  next
    case (Inr r1)
    have "grows r r1"
      using grows_sum_audit_line [of r bps content fp l] Inr by (simp add: grows_sum_def)
    then show ?thesis
      using Inr Cons.IH [of r1] by (simp add: grows_sum_trans)
  qed
qed

lemma grows_sum_audit_file: "grows_sum r (audit_file bps read f r)"
  by (simp add: audit_file_def Let_def grows_sum_audit_lines split: option.splits)
     (simp add: grows_sum_def grows_refl)

lemma grows_sum_audit_files: "grows_sum r (audit_files bps read fs r)"
proof (induction fs arbitrary: r)
  case Nil
  show ?case by (simp add: grows_sum_def grows_refl)
next
  case (Cons f fs)
  show ?case
  proof (cases "audit_file bps read f r")
    case (Inl e)
    then show ?thesis by (simp add: grows_sum_def)
  next
    case (Inr r1)
    have "grows r r1"
      using grows_sum_audit_file [of r bps read f] Inr by (simp add: grows_sum_def)
    then show ?thesis
      using Inr Cons.IH [of r1] by (simp add: grows_sum_trans)
  qed
qed

section \<open>Matches of the patterns\<close>


lemma finditer_no_match:
  "rm False r (p, s, None) = [] \<Longrightarrow>
   finditer r i p s = (case s of [] \<Rightarrow> [] | x # xs \<Rightarrow> finditer r (Suc i) (Some x) xs)"
  by (subst finditer.simps) simp

lemma finditer_match:
  "rm False r (p, s, None) = (p', s', g) # rest \<Longrightarrow>
   finditer r i p s = (i, match_text r s s' g) #
     (if length s' < length s then finditer r (i + (length s - length s')) p' s'
      else (case s of [] \<Rightarrow> [] | x # xs \<Rightarrow> finditer r (Suc i) (Some x) xs))"
  by (subst finditer.simps) simp













section \<open>Files scanned and unreadable files\<close>








section \<open>Rule identifiers and categories\<close>

lemma run_audit_well_tagged:
  assumes "run_audit exts bps tree read = Inr r" and "v \<in> set (violations r)"
  shows "category v = category_of_rule (rule v)"
proof -
  let ?r0 = "new_result\<lparr>files_scanned := length (find_files exts tree)\<rparr>"
  have "grows ?r0 r"
    using grows_sum_audit_files [of ?r0 bps read "find_files exts tree"] assms(1)
    by (simp add: grows_sum_def run_audit_def Let_def)
  then have "list_all well_tagged (violations r)"
    by (auto simp: grows_def new_result_def)
  then show ?thesis
    using assms(2) by (simp add: list_all_iff well_tagged_def)
qed

text \<open>
  C9. The rule identifier of a violation determines its category: two violations with the
  same rule, emitted in any two runs (on any trees, by any rules), have the same category.
\<close>

theorem rule_determines_category:
  assumes "run_audit exts bps tree read = Inr r"
    and "run_audit exts' bps' tree' read' = Inr r'"
    and "v \<in> set (violations r)" and "v' \<in> set (violations r')"
    and "rule v = rule v'"
  shows "category v = category v'"
  using run_audit_well_tagged [OF assms(1) assms(3)] run_audit_well_tagged [OF assms(2) assms(4)]
    assms(5)
  by simp

lemma demo_run_two_lines:
  "run_audit demo_exts demo_bps [[''a.js'']] (\<lambda>f. Some (''xs:'' @ [newline] @ ''2xl:'')) =
     Inr \<lparr>violations =
            [\<lparr>file_path = ''a.js'', line_number = 1, category = BREAKPOINT_COMPLIANCE,
              severity = CRITICAL, rule = ''invalid_breakpoint'', snippet = ''xs:'',
              message = ''Invalid breakpoint pattern detected. Only sm, md, lg, xl allowed.''\<rparr>,
             \<lparr>file_path = ''a.js'', line_number = 2, category = BREAKPOINT_COMPLIANCE,
              severity = CRITICAL, rule = ''invalid_breakpoint'', snippet = ''2xl:'',
              message = ''Invalid breakpoint pattern detected. Only sm, md, lg, xl allowed.''\<rparr>],
          files_scanned = 1\<rparr>"
  by code_simp

theorem rule_determines_category_witness:
  "category \<lparr>file_path = ''a.js'', line_number = 1, category = BREAKPOINT_COMPLIANCE,
              severity = CRITICAL, rule = ''invalid_breakpoint'', snippet = ''xs:'',
              message = ''Invalid breakpoint pattern detected. Only sm, md, lg, xl allowed.''\<rparr> =
   category \<lparr>file_path = ''a.js'', line_number = 2, category = BREAKPOINT_COMPLIANCE,
              severity = CRITICAL, rule = ''invalid_breakpoint'', snippet = ''2xl:'',
              message = ''Invalid breakpoint pattern detected. Only sm, md, lg, xl allowed.''\<rparr>"
  by (rule rule_determines_category [OF demo_run_two_lines demo_run_two_lines]) simp_all

section \<open>Counting the violations of one rule\<close>

lemma count_rule_add:
  "count_rule n (add_violation r v) = count_rule n r + (if rule v = n then 1 else 0)"
  by (simp add: count_rule_def add_violation_def)

lemma count_rule_fold:
  "count_rule n (fold (\<lambda>x r. if P x then add_violation r (V x) else r) xs r) =
   count_rule n r + length (filter (\<lambda>x. P x \<and> rule (V x) = n) xs)"
  by (induction xs arbitrary: r) (simp_all add: count_rule_add)

lemma count_rule_fold_same:
  assumes "\<And>x r. count_rule n (f x r) = count_rule n r"
  shows "count_rule n (fold f xs r) = count_rule n r"
  by (induction xs arbitrary: r) (simp_all add: assms)

lemma count_rule_check_utility:
  "n \<noteq> ''breakpoint_order'' \<Longrightarrow> count_rule n (check_utility cs ln fp ub r) = count_rule n r"
  by (cases ub) (auto simp: check_utility_def Let_def count_rule_add)

lemma count_rule_check_breakpoint_order:
  "n \<noteq> ''breakpoint_order'' \<Longrightarrow>
   count_rule n (check_breakpoint_order cs ln fp line r) = count_rule n r"
  unfolding check_breakpoint_order_def Let_def
  by (rule count_rule_fold_same) (rule count_rule_check_utility)

lemma count_invalid_breakpoint:
  "count_rule ''invalid_breakpoint'' (check_breakpoint_compliance line ln fp r) =
   count_rule ''invalid_breakpoint'' r +
   length (filter (\<lambda>pattern. re_findall pattern line \<noteq> []) INVALID_BREAKPOINT_PATTERNS)"
proof -
  have "count_rule ''invalid_breakpoint'' (check_breakpoint_compliance line ln fp r) =
        count_rule ''invalid_breakpoint''
          (fold (\<lambda>pattern r.
                  if re_findall pattern line \<noteq> []
                  then add_violation r
                         \<lparr>file_path = fp, line_number = ln,
                          category = BREAKPOINT_COMPLIANCE, severity = CRITICAL,
                          rule = ''invalid_breakpoint'', snippet = take 100 (strip line),
                          message = ''Invalid breakpoint pattern detected. Only sm, md, lg, xl allowed.''\<rparr>
                  else r)
                INVALID_BREAKPOINT_PATTERNS r)"
    unfolding check_breakpoint_compliance_def Let_def
    by (rule count_rule_fold_same) (simp add: count_rule_check_breakpoint_order)
  then show ?thesis
    by (simp add: count_rule_fold)
qed

lemma count_inline_style_px:
  "count_rule ''inline_style_px'' (check_hardcoded_sizes line ln fp r) =
   count_rule ''inline_style_px'' r +
   length (filter (\<lambda>pattern. re_search True pattern line) INLINE_STYLE_PX_PATTERNS) \<and>
   length (filter (\<lambda>pattern. re_search True pattern line) INLINE_STYLE_PX_PATTERNS) \<le> 4"
proof
  show "count_rule ''inline_style_px'' (check_hardcoded_sizes line ln fp r) =
   count_rule ''inline_style_px'' r +
   length (filter (\<lambda>pattern. re_search True pattern line) INLINE_STYLE_PX_PATTERNS)"
  proof -
    have first: "count_rule ''inline_style_px''
        (fold (\<lambda>(pattern, name) r.
                  if re_findall pattern line \<noteq> []
                  then add_violation r
                         \<lparr>file_path = fp, line_number = ln,
                          category = HARDCODED_SIZE, severity = WARNING,
                          rule = ''hardcoded_px_value'', snippet = take 100 (strip line),
                          message = ''Hardcoded pixel value detected ('' @ name @
                            ''). Use Tailwind scale tokens, %, rem, or em instead.''\<rparr>
                  else r)
                HARDCODED_PX_PATTERNS r) = count_rule ''inline_style_px'' r"
      by (rule count_rule_fold_same) (simp add: count_rule_add split: prod.splits)
    show ?thesis
      unfolding check_hardcoded_sizes_def Let_def
      by (simp add: count_rule_fold first)
  qed
next
  have "length (filter (\<lambda>pattern. re_search True pattern line) INLINE_STYLE_PX_PATTERNS)
          \<le> length INLINE_STYLE_PX_PATTERNS"
    by (rule length_filter_le)
  then show "length (filter (\<lambda>pattern. re_search True pattern line) INLINE_STYLE_PX_PATTERNS) \<le> 4"
    by (simp add: INLINE_STYLE_PX_PATTERNS_def)
qed

lemma find_SomeD: "find P xs = Some x \<Longrightarrow> x \<in> set xs \<and> P x"
  by (induction xs) (auto split: if_splits)

lemma count_inline_style_layout:
  "count_rule ''inline_style_layout'' (check_inline_styles line ln fp r) =
   count_rule ''inline_style_layout'' r +
   (if re_search False jsx_style line \<and>
       list_ex (\<lambda>prop. re_search True (prop_pattern prop) line) jsx_layout_props
    then 1 else 0)"
  unfolding check_inline_styles_def Let_def
  by (auto simp: count_rule_add find_None_iff list_ex_iff split: option.splits dest: find_SomeD)

lemma count_inline_style_html:
  "count_rule ''inline_style_html'' (check_inline_styles line ln fp r) =
   count_rule ''inline_style_html'' r +
   (if re_search False html_style line \<and>
       list_ex (\<lambda>prop. re_search True (prop_pattern prop) line) html_layout_props
    then 1 else 0)"
  unfolding check_inline_styles_def Let_def
  by (auto simp: count_rule_add find_None_iff list_ex_iff split: option.splits dest: find_SomeD)

lemma count_rule_new: "count_rule n new_result = 0"
  by (simp add: count_rule_def new_result_def)

text \<open>
  C3 (as amended). The two inline-style checks test different lists of property names. The
  markup-attribute check (rule \<open>inline_style_html\<close>) tests width, height, display, position,
  flex and grid; the object-literal check (rule \<open>inline_style_layout\<close>) tests these six and
  also margin and padding. Each check adds one violation exactly when its style form is on
  the line and one of its own names, followed by a colon, is found on the line. So a name
  that triggers \<open>inline_style_html\<close> also triggers \<open>inline_style_layout\<close> in that form, but
  margin and padding trigger \<open>inline_style_layout\<close> only.
\<close>

theorem inline_style_checks_use_two_lists:
  "jsx_layout_props = html_layout_props @ [''margin'', ''padding''] \<and>
   count_rule ''inline_style_layout'' (check_inline_styles line ln fp r) =
     count_rule ''inline_style_layout'' r +
     (if re_search False jsx_style line \<and>
         list_ex (\<lambda>prop. re_search True (prop_pattern prop) line) jsx_layout_props
      then 1 else 0) \<and>
   count_rule ''inline_style_html'' (check_inline_styles line ln fp r) =
     count_rule ''inline_style_html'' r +
     (if re_search False html_style line \<and>
         list_ex (\<lambda>prop. re_search True (prop_pattern prop) line) html_layout_props
      then 1 else 0) \<and>
   (list_ex (\<lambda>prop. re_search True (prop_pattern prop) line) html_layout_props \<longrightarrow>
    list_ex (\<lambda>prop. re_search True (prop_pattern prop) line) jsx_layout_props)"
proof -
  have l: "jsx_layout_props = html_layout_props @ [''margin'', ''padding'']"
    by (simp add: jsx_layout_props_def html_layout_props_def)
  have "list_ex (\<lambda>prop. re_search True (prop_pattern prop) line) html_layout_props \<longrightarrow>
    list_ex (\<lambda>prop. re_search True (prop_pattern prop) line) jsx_layout_props"
    unfolding l by simp
  then show ?thesis
    using l count_inline_style_layout [of line ln fp r] count_inline_style_html [of line ln fp r]
    by blast
qed

theorem inline_style_checks_use_two_lists_witness:
  \<open>list_ex (\<lambda>prop. re_search True (prop_pattern prop) ''<p style={{width: 1}}>'') html_layout_props \<and>
   count_rule ''inline_style_layout''
     (check_inline_styles ''<p style={{width: 1}}>'' 1 ''a.js'' new_result) = 1\<close>
proof -
  have h: \<open>list_ex (\<lambda>prop. re_search True (prop_pattern prop) ''<p style={{width: 1}}>'') html_layout_props\<close>
    by code_simp
  have j: \<open>re_search False jsx_style ''<p style={{width: 1}}>''\<close>
    by code_simp
  show ?thesis
    using inline_style_checks_use_two_lists [of \<open>''<p style={{width: 1}}>''\<close> 1 "''a.js''" new_result] h j
    by (simp add: count_rule_new)
qed

text \<open>
  C3 as stated fails: margin in an object-literal style is reported, margin in a
  markup-attribute style is not.
\<close>

theorem inline_style_same_list_counterexample:
  \<open>count_rule ''inline_style_layout''
     (check_inline_styles ''<p style={{margin: 0}}>'' 1 ''a.js'' new_result) = 1 \<and>
   re_search False html_style ''<p style="margin: 0">'' \<and>
   re_search True (prop_pattern ''margin'') ''<p style="margin: 0">'' \<and>
   count_rule ''inline_style_html''
     (check_inline_styles ''<p style="margin: 0">'' 1 ''a.js'' new_result) = 0\<close>
proof -
  have a: \<open>re_search False jsx_style ''<p style={{margin: 0}}>''\<close>
    by code_simp
  have b: \<open>list_ex (\<lambda>prop. re_search True (prop_pattern prop) ''<p style={{margin: 0}}>'') jsx_layout_props\<close>
    by code_simp
  have c: \<open>re_search False html_style ''<p style="margin: 0">''\<close>
    by code_simp
  have d: \<open>\<not> list_ex (\<lambda>prop. re_search True (prop_pattern prop) ''<p style="margin: 0">'') html_layout_props\<close>
    by code_simp
  have e: \<open>re_search True (prop_pattern ''margin'') ''<p style="margin: 0">''\<close>
    by code_simp
  show ?thesis
    using a b c d e by (simp add: count_inline_style_layout count_inline_style_html count_rule_new)
qed

text \<open>
  C4 (as amended). On every line the pixel check adds one Critical \<open>inline_style_px\<close> for
  each of the four patterns of \<open>INLINE_STYLE_PX_PATTERNS\<close> that matches the line: as many
  as there are matching patterns, at most four, and not at most one.
\<close>

theorem inline_style_px_per_pattern:
  "count_rule ''inline_style_px'' (check_hardcoded_sizes line ln fp r) =
   count_rule ''inline_style_px'' r +
   length (filter (\<lambda>pattern. re_search True pattern line) INLINE_STYLE_PX_PATTERNS) \<and>
   length (filter (\<lambda>pattern. re_search True pattern line) INLINE_STYLE_PX_PATTERNS) \<le> 4"
  by (rule count_inline_style_px)

text \<open>C4 as stated fails: one line, pixel width and pixel height, two violations.\<close>

theorem inline_style_px_counterexample:
  \<open>count_rule ''inline_style_px''
     (check_hardcoded_sizes ''<p style="width:1px;height:2px">'' 1 ''a.js'' new_result) = 2\<close>
proof -
  have \<open>length (filter (\<lambda>pattern. re_search True pattern ''<p style="width:1px;height:2px">'')
      INLINE_STYLE_PX_PATTERNS) = 2\<close>
    by code_simp
  then show ?thesis
    using count_inline_style_px [of \<open>''<p style="width:1px;height:2px">''\<close> 1 "''a.js''" new_result]
    by (simp add: count_rule_new)
qed

text \<open>
  C6 (as amended). The legality check reads the raw line, not the extracted class-value
  strings: it adds one Critical \<open>invalid_breakpoint\<close> for each pattern of
  \<open>INVALID_BREAKPOINT_PATTERNS\<close> that matches anywhere on the line, whether or not the
  match lies inside a class-value string.
\<close>

theorem invalid_breakpoint_per_pattern_on_raw_line:
  "count_rule ''invalid_breakpoint'' (check_breakpoint_compliance line ln fp r) =
   count_rule ''invalid_breakpoint'' r +
   length (filter (\<lambda>pattern. re_findall pattern line \<noteq> []) INVALID_BREAKPOINT_PATTERNS)"
  by (rule count_invalid_breakpoint)

text \<open>
  C6 as stated fails: a line without any class-value string, with \<open>2xl:\<close> on it, is
  reported.
\<close>

theorem invalid_breakpoint_scope_counterexample:
  "extract_class_strings [] 1 ''x = 2xl:hidden'' = [] \<and>
   count_rule ''invalid_breakpoint''
     (check_breakpoint_compliance ''x = 2xl:hidden'' 1 ''a.js'' new_result) = 1"
proof -
  have a: "extract_class_strings [] 1 ''x = 2xl:hidden'' = []"
    by code_simp
  have b: "length (filter (\<lambda>pattern. re_findall pattern ''x = 2xl:hidden'' \<noteq> [])
      INVALID_BREAKPOINT_PATTERNS) = 1"
    by code_simp
  show ?thesis
    using a b by (simp add: count_invalid_breakpoint count_rule_new)
qed

section \<open>Determinism\<close>

lemma fold_append_concat: "fold (\<lambda>x acc. acc @ f x) xs a = a @ concat (map f xs)"
  by (induction xs arbitrary: a) simp_all

lemma mset_concat_map_perm:
  assumes "mset xs = mset ys"
  shows "mset (concat (map f xs)) = mset (concat (map f ys))"
proof -
  have "\<And>zs. mset (concat (map f zs)) = sum_mset (image_mset (\<lambda>x. mset (f x)) (mset zs))"
    by (induct_tac zs) simp_all
  then show ?thesis using assms by simp
qed

lemma sort_mset_cong:
  fixes xs ys :: "'a::linorder list"
  assumes "mset xs = mset ys"
  shows "sort xs = sort ys"
  by (rule properties_for_sort) (simp_all add: assms)

lemma find_files_order_independent:
  assumes "mset exts1 = mset exts2" and "mset tree1 = mset tree2"
  shows "find_files exts1 tree1 = find_files exts2 tree2"
proof -
  have t: "\<And>ext. mset (rglob ext tree1) = mset (rglob ext tree2)"
    by (simp add: rglob_def assms(2))
  have "mset (concat (map (\<lambda>ext. rglob ext tree1) exts1)) =
        mset (concat (map (\<lambda>ext. rglob ext tree1) exts2))"
    by (rule mset_concat_map_perm [OF assms(1)])
  also have "\<dots> = mset (concat (map (\<lambda>ext. rglob ext tree2) exts2))"
    by (induction exts2) (simp_all add: t)
  finally have "mset (concat (map (\<lambda>ext. rglob ext tree1) exts1)) =
        mset (concat (map (\<lambda>ext. rglob ext tree2) exts2))" .
  then show ?thesis
    unfolding find_files_def Let_def fold_append_concat
    by (intro sort_mset_cong) simp
qed

lemma layout_one_bps:
  assumes "set bps1 = set bps2"
  shows "layout_one bps1 = layout_one bps2"
  unfolding layout_one_def list_ex_iff assms by (rule refl)

lemma has_responsive_grid_bps:
  assumes "set bps1 = set bps2"
  shows "has_responsive_grid bps1 = has_responsive_grid bps2"
  unfolding has_responsive_grid_def list_ex_iff assms by (rule refl)

lemma coverage_one_bps: "set bps1 = set bps2 \<Longrightarrow> coverage_one bps1 = coverage_one bps2"
  by (intro ext) (simp add: coverage_one_def Let_def has_responsive_grid_bps [of bps1 bps2])

lemma flex_grid_one_bps:
  assumes "set bps1 = set bps2"
  shows "flex_grid_one bps1 = flex_grid_one bps2"
  unfolding flex_grid_one_def list_ex_iff assms by (rule refl)

lemma flex_grid_all_bps:
  "set bps1 = set bps2 \<Longrightarrow> flex_grid_all bps1 ln fp css r = flex_grid_all bps2 ln fp css r"
  by (induction css arbitrary: r) (simp_all add: flex_grid_one_bps [of bps1 bps2] split: sum.splits)

lemma audit_line_bps:
  "set bps1 = set bps2 \<Longrightarrow> audit_line bps1 = audit_line bps2"
  by (intro ext)
     (simp add: audit_line_def Let_def check_layout_antipatterns_def check_responsive_coverage_def
        check_flex_grid_patterns_def layout_one_bps [of bps1 bps2] coverage_one_bps [of bps1 bps2]
        flex_grid_all_bps [of bps1 bps2] split: prod.splits)

lemma audit_lines_bps:
  "set bps1 = set bps2 \<Longrightarrow> audit_lines bps1 content fp ls r = audit_lines bps2 content fp ls r"
  by (induction ls arbitrary: r) (simp_all add: audit_line_bps [of bps1 bps2] split: sum.splits)

lemma audit_file_bps:
  "set bps1 = set bps2 \<Longrightarrow> audit_file bps1 = audit_file bps2"
  by (intro ext) (simp add: audit_file_def Let_def audit_lines_bps [of bps1 bps2] split: option.splits)

lemma audit_files_bps:
  "set bps1 = set bps2 \<Longrightarrow> audit_files bps1 read fs r = audit_files bps2 read fs r"
  by (induction fs arbitrary: r) (simp_all add: audit_file_bps [of bps1 bps2] split: sum.splits)

text \<open>
  C8. Two runs over the same tree with the same file contents return the same result (the
  same sequence of violations, the same \<open>files_scanned\<close>, hence the same counts), whatever
  the order in which each run iterates the sets \<open>SCAN_EXTENSIONS\<close> and
  \<open>ALLOWED_BREAKPOINTS\<close> and in which the traversal of the directory yields the paths.
\<close>

theorem run_audit_deterministic:
  assumes "set exts1 = SCAN_EXTENSIONS" and "distinct exts1"
    and "set exts2 = SCAN_EXTENSIONS" and "distinct exts2"
    and "set bps1 = ALLOWED_BREAKPOINTS" and "set bps2 = ALLOWED_BREAKPOINTS"
    and "mset tree1 = mset tree2"
  shows "run_audit exts1 bps1 tree1 read = run_audit exts2 bps2 tree2 read"
proof -
  have "mset exts1 = mset exts2"
    using assms(1-4) by (simp add: set_eq_iff_mset_eq_distinct [symmetric])
  then have f: "find_files exts1 tree1 = find_files exts2 tree2"
    using assms(7) by (rule find_files_order_independent)
  have "set bps1 = set bps2" using assms(5,6) by simp
  then show ?thesis
    by (simp add: run_audit_def Let_def f audit_files_bps [of bps1 bps2])
qed

theorem run_audit_deterministic_witness:
  "run_audit demo_exts demo_bps [[''b.js''], [''a.js'']] (\<lambda>f. Some ''xs:'') =
   run_audit (rev demo_exts) (rev demo_bps) [[''a.js''], [''b.js'']] (\<lambda>f. Some ''xs:'')"
  by (rule run_audit_deterministic)
     (auto simp: demo_exts_def demo_bps_def SCAN_EXTENSIONS_def ALLOWED_BREAKPOINTS_def)

section \<open>Order of the extracted class strings\<close>

lemma finditer_from:
  "\<forall>x \<in> set (finditer r i p s). i \<le> fst x"
proof (induction "length s" arbitrary: i p s rule: less_induct)
  case less
  have step: "\<forall>x \<in> set (case s of [] \<Rightarrow> [] | y # ys \<Rightarrow> finditer r (Suc i) (Some y) ys). i \<le> fst x"
  proof (cases s)
    case Nil
    then show ?thesis by simp
  next
    case (Cons y ys)
    then show ?thesis using less [of ys "Suc i" "Some y"] by fastforce
  qed
  show ?case
  proof (cases "rm False r (p, s, None)")
    case Nil
    then show ?thesis using step by (simp add: finditer_no_match)
  next
    case (Cons st sts)
    obtain p' s' g where st: "st = (p', s', g)" by (cases st) auto
    have m: "rm False r (p, s, None) = (p', s', g) # sts" using Cons st by simp
    show ?thesis
    proof (cases "length s' < length s")
      case True
      then show ?thesis
        using less [of s' "i + (length s - length s')" p']
        by (fastforce simp: finditer_match [OF m])
    next
      case False
      then show ?thesis
        using step by (simp add: finditer_match [OF m])
    qed
  qed
qed

lemma finditer_increasing:
  "sorted_wrt (\<lambda>a b. fst a < fst b) (finditer r i p s)"
proof (induction "length s" arbitrary: i p s rule: less_induct)
  case less
  have step: "sorted_wrt (\<lambda>a b. fst a < fst b)
      (case s of [] \<Rightarrow> [] | y # ys \<Rightarrow> finditer r (Suc i) (Some y) ys)"
  proof (cases s)
    case Nil
    then show ?thesis by simp
  next
    case (Cons y ys)
    then show ?thesis using less [of ys "Suc i" "Some y"] by simp
  qed
  have later: "\<forall>x \<in> set (case s of [] \<Rightarrow> [] | y # ys \<Rightarrow> finditer r (Suc i) (Some y) ys). i < fst x"
  proof (cases s)
    case Nil
    then show ?thesis by simp
  next
    case (Cons y ys)
    then show ?thesis using finditer_from [of r "Suc i" "Some y" ys] by fastforce
  qed
  show ?case
  proof (cases "rm False r (p, s, None)")
    case Nil
    then show ?thesis using step by (simp add: finditer_no_match)
  next
    case (Cons st sts)
    obtain p' s' g where st: "st = (p', s', g)" by (cases st) auto
    have m: "rm False r (p, s, None) = (p', s', g) # sts" using Cons st by simp
    show ?thesis
    proof (cases "length s' < length s")
      case True
      then have "\<forall>x \<in> set (finditer r (i + (length s - length s')) p' s'). i < fst x"
        using finditer_from [of r "i + (length s - length s')" p' s'] by fastforce
      then show ?thesis
        using True less [of s' "i + (length s - length s')" p']
        by (simp add: finditer_match [OF m])
    next
      case False
      then show ?thesis
        using step later by (simp add: finditer_match [OF m])
    qed
  qed
qed

lemma tag_matches_from: "\<forall>x \<in> set (tag_matches k rs line). k \<le> fst x"
proof (induction rs arbitrary: k)
  case Nil
  show ?case by simp
next
  case (Cons r rs)
  show ?case using Cons [of "Suc k"] by fastforce
qed

lemma tag_matches_sorted: "sorted_wrt pattern_major (tag_matches k rs line)"
proof (induction rs arbitrary: k)
  case Nil
  show ?case by simp
next
  case (Cons r rs)
  have a: "sorted_wrt pattern_major (map (\<lambda>(i, m). (k, i, m)) (finditer r 0 None line))"
    using finditer_increasing [of r 0 None line]
    by (simp add: sorted_wrt_map pattern_major_def case_prod_beta)
  have b: "\<forall>x \<in> set (map (\<lambda>(i, m). (k, i, m)) (finditer r 0 None line)).
           \<forall>y \<in> set (tag_matches (Suc k) rs line). pattern_major x y"
    using tag_matches_from [of "Suc k" rs line] by (fastforce simp: pattern_major_def)
  show ?case
    using a b Cons [of "Suc k"] by (simp add: sorted_wrt_append)
qed

lemma tag_matches_texts:
  "map (\<lambda>x. snd (snd x)) (tag_matches k rs line) = concat (map (\<lambda>r. re_findall r line) rs)"
  by (induction rs arbitrary: k) (simp_all add: re_findall_def case_prod_beta)

text \<open>
  C5 (as amended). For every line the token extractor returns all the matches of its six
  patterns, grouped by pattern in the order of the pattern list (className with double
  quotes, className with single quotes, class with double quotes, class with single quotes,
  className with a quoted string in braces, className with a template literal in braces),
  and from left to right within one pattern. Across patterns the order is not that of the
  positions in the line.
\<close>

theorem extract_class_strings_pattern_major:
  "extract_class_strings content line_num line = map (\<lambda>x. snd (snd x)) (extract_positions line) \<and>
   sorted_wrt pattern_major (extract_positions line)"
  by (simp add: extract_class_strings_def extract_positions_def fold_append_concat
      tag_matches_texts tag_matches_sorted)

text \<open>
  C5 as stated fails: \<open>class="a"\<close> stands left of \<open>className="b"\<close>, and the extractor
  returns \<open>b\<close> first.
\<close>

theorem extract_left_to_right_counterexample:
  \<open>extract_class_strings [] 1 ''<i class="a" className="b">'' = [''b'', ''a''] \<and>
   extract_positions ''<i class="a" className="b">'' = [(0, 13, ''b''), (2, 3, ''a'')]\<close>
  by code_simp

section \<open>Mobile-first ordering\<close>














lemma al_lookup_absent: "u \<notin> fst ` set m \<Longrightarrow> al_lookup m u = []"
proof -
  assume "u \<notin> fst ` set m"
  then have "map_of m u = None" by (simp add: map_of_eq_None_iff)
  then show ?thesis by (simp add: al_lookup_def)
qed


















section \<open>Arbitrary grid column values\<close>







lemma rm_Eps_fun: "rm ic Eps = (\<lambda>st. [st])"
  by (rule ext) simp























end
